theory Spec2Isabelle
  imports Complex_Main "HOL-Library.Log_Nat"
begin

section \<open>Data model\<close>

text \<open>
  The journal is a Python dictionary from date keys to day records, themselves
  dictionaries. Each dictionary is a record here; a field the program reads with
  \<^verbatim>\<open>.get\<close> or by index is an option, \<open>None\<close> standing for an absent key. Python
  integers are \<open>int\<close>; a Python float is its exact value, a \<open>rat\<close>.
\<close>

datatype error = KeyError | ValueError | JSONDecodeError | OSError | OverflowError

record task =
  task_id :: int
  title :: string
  priority :: string
  timeSpent :: "int option"
  task_completed :: bool

record face_item =
  item_id :: int
  name :: string
  completed :: "bool option"

record food_entry =
  entry_id :: int
  food :: string
  calories :: int

record fitness_rec =
  duration :: "rat option"
  caloriesBurnt :: "int option"

record face_rec =
  items :: "face_item list option"

record diet_rec =
  entries :: "food_entry list option"
  totalCalories :: "int option"

record sleep_rec =
  bedTime :: "string option"
  wakeTime :: "string option"
  hours :: "rat option"

record day_record =
  workTasks :: "task list option"
  fitness :: "fitness_rec option"
  faceHealth :: "face_rec option"
  diet :: "diet_rec option"
  energy :: "int option"
  sleep :: "sleep_rec option"
  nofapStreak :: "int option"

type_synonym store = "string \<rightharpoonup> day_record"

text \<open>
  A \<^verbatim>\<open>datetime.date\<close> is its proleptic Gregorian ordinal (\<^verbatim>\<open>date.toordinal()\<close>),
  so that \<^verbatim>\<open>d - timedelta(days=i)\<close> is \<open>d - i\<close>.
\<close>

type_synonym date = int

section \<open>Date keys\<close>

text \<open>
  \<^verbatim>\<open>get_date_key\<close> is \<^verbatim>\<open>date_obj.strftime('%Y-%m-%d')\<close>. The conversion of an
  ordinal to year, month and day follows the library's \<^verbatim>\<open>_ord2ymd\<close>. The dates
  meant are those of the years 1000 to 9999, whose year has four digits; the program's
  dates are days around the one of the system clock, where subtracting a year of days
  stays within the range of \<^verbatim>\<open>datetime.date\<close>.
\<close>

definition days_before_month :: "int \<Rightarrow> int" where
  "days_before_month m = [0, 0, 31, 59, 90, 120, 151, 181, 212, 243, 273, 304, 334] ! nat m"

definition days_in_month :: "int \<Rightarrow> int" where
  "days_in_month m = [0, 31, 28, 31, 30, 31, 30, 31, 31, 30, 31, 30, 31] ! nat m"

definition ord2ymd :: "date \<Rightarrow> int \<times> int \<times> int" where
  "ord2ymd ordinal =
    (let n0 = ordinal - 1;
         n400 = n0 div 146097; na = n0 mod 146097;
         n100 = na div 36524; nb = na mod 36524;
         n4 = nb div 1461; nc = nb mod 1461;
         n1 = nc div 365; n = nc mod 365;
         year = n400 * 400 + 1 + n100 * 100 + n4 * 4 + n1
     in if n1 = 4 \<or> n100 = 4 then (year - 1, 12, 31)
        else
          let leapyear = (n1 = 3 \<and> (n4 \<noteq> 24 \<or> n100 = 3));
              month = (n + 50) div 32;
              preceding = days_before_month month + (if month > 2 \<and> leapyear then 1 else 0)
          in if preceding > n
             then (year, month - 1,
                   n - (preceding - (days_in_month (month - 1)
                                     + (if month - 1 = 2 \<and> leapyear then 1 else 0))) + 1)
             else (year, month, n - preceding + 1))"

definition digit :: "int \<Rightarrow> char" where
  "digit d = ''0123456789'' ! nat (d mod 10)"

definition pad2 :: "int \<Rightarrow> string" where
  "pad2 n = [digit (n div 10), digit n]"

definition pad4 :: "int \<Rightarrow> string" where
  "pad4 n = [digit (n div 1000), digit (n div 100), digit (n div 10), digit n]"

definition get_date_key :: "date \<Rightarrow> string" where
  "get_date_key date_obj =
     (case ord2ymd date_obj of (y, m, d) \<Rightarrow> pad4 y @ ''-'' @ pad2 m @ ''-'' @ pad2 d)"

section \<open>Storage\<close>

text \<open>
  The data file is absent, present with content that cannot be opened or parsed, or
  present holding the JSON of a journal. \<^verbatim>\<open>json_load\<close> is
  \<^verbatim>\<open>open(DATA_FILE)\<close> followed by \<^verbatim>\<open>json.load\<close>: it raises on the first two.
\<close>

datatype data_file = NoFile | Garbage | Json store

definition path_exists :: "data_file \<Rightarrow> bool" where
  "path_exists f = (f \<noteq> NoFile)"

definition json_load :: "data_file \<Rightarrow> error + store" where
  "json_load f = (case f of NoFile \<Rightarrow> Inl OSError | Garbage \<Rightarrow> Inl JSONDecodeError | Json d \<Rightarrow> Inr d)"

definition load_data :: "data_file \<Rightarrow> store" where
  "load_data f =
     (if path_exists f
      then (case json_load f of Inr d \<Rightarrow> d | Inl _ \<Rightarrow> Map.empty)
      else Map.empty)"

definition save_data :: "store \<Rightarrow> data_file" where
  "save_data d = Json d"

section \<open>Journal store\<close>

definition default_day :: day_record where
  "default_day =
     \<lparr> workTasks = Some [],
       fitness = Some \<lparr> duration = Some 0, caloriesBurnt = Some 0 \<rparr>,
       faceHealth = Some \<lparr> items = Some [] \<rparr>,
       diet = Some \<lparr> entries = Some [], totalCalories = Some 0 \<rparr>,
       energy = Some 3,
       sleep = Some \<lparr> bedTime = Some [], wakeTime = Some [], hours = Some 0 \<rparr>,
       nofapStreak = Some 0 \<rparr>"

text \<open>
  \<^verbatim>\<open>get_day_data\<close> returns the record and the dictionary, which it extends when the
  key is new.
\<close>

definition get_day_data :: "store \<Rightarrow> string \<Rightarrow> day_record \<times> store" where
  "get_day_data d date_key =
     (case d date_key of
        None \<Rightarrow> (default_day, d(date_key \<mapsto> default_day))
      | Some r \<Rightarrow> (r, d))"

text \<open>
  \<^verbatim>\<open>dict.get(key, default)\<close> on a field, and \<^verbatim>\<open>dict.update\<close> of one day record by
  another: every key the second one has replaces the first one's value whole.
\<close>

definition get_or :: "'a option \<Rightarrow> 'a \<Rightarrow> 'a" where
  "get_or v dflt = (case v of None \<Rightarrow> dflt | Some x \<Rightarrow> x)"

definition override :: "'a option \<Rightarrow> 'a option \<Rightarrow> 'a option" where
  "override old new = (case new of None \<Rightarrow> old | Some v \<Rightarrow> Some v)"

definition dict_update :: "day_record \<Rightarrow> day_record \<Rightarrow> day_record" where
  "dict_update day_data updates =
     \<lparr> workTasks = override (workTasks day_data) (workTasks updates),
       fitness = override (fitness day_data) (fitness updates),
       faceHealth = override (faceHealth day_data) (faceHealth updates),
       diet = override (diet day_data) (diet updates),
       energy = override (energy day_data) (energy updates),
       sleep = override (sleep day_data) (sleep updates),
       nofapStreak = override (nofapStreak day_data) (nofapStreak updates) \<rparr>"

text \<open>
  The session holds the journal and the date being viewed; the data file is the third
  component of the state. \<^verbatim>\<open>update_and_save\<close> writes the whole journal.
\<close>

record world =
  data :: store
  current_date :: date
  disk :: data_file

definition update_and_save :: "day_record \<Rightarrow> world \<Rightarrow> world" where
  "update_and_save updates w =
     (let date_key = get_date_key (current_date w);
          (day_data, d1) = get_day_data (data w) date_key;
          d2 = d1(date_key \<mapsto> dict_update day_data updates)
      in w\<lparr> data := d2, disk := save_data d2 \<rparr>)"

section \<open>Streak calculator\<close>

text \<open>
  The loop over \<^verbatim>\<open>range(365)\<close>, with the journal passed through it. \<open>current\<close> is
  \<^verbatim>\<open>date.today()\<close>, read once before the loop: the date of the system clock, from
  which the offsets below 365 subtract within the range of \<^verbatim>\<open>datetime.date\<close>.
\<close>

fun streak_loop :: "date \<Rightarrow> nat list \<Rightarrow> nat \<Rightarrow> store \<Rightarrow> nat \<times> store" where
  "streak_loop current [] streak d = (streak, d)"
| "streak_loop current (i # rest) streak d =
     (let check_date = current - int i;
          date_key = get_date_key check_date
      in if (case d date_key of None \<Rightarrow> False | Some r \<Rightarrow> nofapStreak r = Some 1)
         then streak_loop current rest (streak + 1) d
         else if i = 0 then streak_loop current rest streak d
         else (streak, d))"

definition calculate_nofap_streak :: "date \<Rightarrow> store \<Rightarrow> nat \<times> store" where
  "calculate_nofap_streak today d = streak_loop today [0..<365] 0 d"

section \<open>Analytics aggregator\<close>

record daily_stat =
  date :: date
  date_str :: string
  work_mins :: int
  cals_in :: int
  cals_out :: int
  sleep_stat :: rat
  energy_stat :: int
  face_total :: int
  face_done :: int
  nofap :: int

definition strftime_a_d :: "date \<Rightarrow> string" where
  "strftime_a_d date_obj =
     (case ord2ymd date_obj of (y, m, d) \<Rightarrow>
        [''Mon'', ''Tue'', ''Wed'', ''Thu'', ''Fri'', ''Sat'', ''Sun''] ! nat ((date_obj + 6) mod 7)
        @ '' '' @ pad2 d)"

definition day_stat :: "date \<Rightarrow> day_record \<Rightarrow> daily_stat" where
  "day_stat check_date day_data =
     \<lparr> date = check_date,
       date_str = strftime_a_d check_date,
       work_mins = sum_list (map (\<lambda>t. get_or (timeSpent t) 0) (get_or (workTasks day_data) [])),
       cals_in = get_or (totalCalories (get_or (diet day_data) \<lparr> entries = None, totalCalories = None \<rparr>)) 0,
       cals_out = get_or (caloriesBurnt (get_or (fitness day_data) \<lparr> duration = None, caloriesBurnt = None \<rparr>)) 0,
       sleep_stat = get_or (hours (get_or (sleep day_data) \<lparr> bedTime = None, wakeTime = None, hours = None \<rparr>)) 0,
       energy_stat = get_or (energy day_data) 0,
       face_total = int (length (get_or (items (get_or (faceHealth day_data) \<lparr> items = None \<rparr>)) [])),
       face_done = int (length (filter (\<lambda>item. completed item = Some True)
                     (get_or (items (get_or (faceHealth day_data) \<lparr> items = None \<rparr>)) []))),
       nofap = get_or (nofapStreak day_data) 0 \<rparr>"

text \<open>
  \<^verbatim>\<open>date.today() - timedelta(days=i)\<close>. Building the \<^verbatim>\<open>timedelta\<close> raises
  \<^verbatim>\<open>OverflowError\<close> when the number of days exceeds 999999999 in magnitude, and the
  subtraction raises it when the ordinal of the result is not one of a date, from 1 to
  3652059 (9999-12-31).
\<close>

definition date_minus_days :: "date \<Rightarrow> int \<Rightarrow> error + date" where
  "date_minus_days d n =
     (if 999999999 < \<bar>n\<bar> then Inl OverflowError
      else let ordinal = d - n
           in if 0 < ordinal \<and> ordinal \<le> 3652059 then Inr ordinal else Inl OverflowError)"

text \<open>
  The loop over \<^verbatim>\<open>range(days - 1, -1, -1)\<close>. It reads the clock at every iteration:
  \<open>today i\<close> is the date that \<^verbatim>\<open>date.today()\<close> gives in the iteration of offset
  \<open>i\<close>. When the subtraction raises, no list is returned, and the journal is as the
  iterations before have left it.
\<close>

fun analytics_loop ::
  "(nat \<Rightarrow> date) \<Rightarrow> nat list \<Rightarrow> daily_stat list \<Rightarrow> store \<Rightarrow> (error + daily_stat list) \<times> store" where
  "analytics_loop today [] stats d = (Inr stats, d)"
| "analytics_loop today (i # rest) stats d =
     (case date_minus_days (today i) (int i) of
        Inl e \<Rightarrow> (Inl e, d)
      | Inr check_date \<Rightarrow>
          let date_key = get_date_key check_date;
              (day_data, d') = get_day_data d date_key
          in analytics_loop today rest (stats @ [day_stat check_date day_data]) d')"

definition get_analytics_data ::
  "(nat \<Rightarrow> date) \<Rightarrow> store \<Rightarrow> int \<Rightarrow> (error + daily_stat list) \<times> store" where
  "get_analytics_data today d days = analytics_loop today (rev [0..<nat days]) [] d"

section \<open>Time normalizer\<close>

text \<open>
  \<^verbatim>\<open>datetime.strptime(s, '%H:%M')\<close> matches \<open>s\<close> from its start against the regular
  expression \<^verbatim>\<open>(2[0-3]|[0-1]\d|\d):([0-5]\d|\d)\<close>, raises \<^verbatim>\<open>ValueError\<close> when there
  is no match or when text remains after the match, and gives the time on 1900-01-01.
  Each group is the list of its alternatives that match, in the order the expression
  tries them, with the text left over; the match found is the first of the
  combinations. Characters are single bytes, among which the decimal digits are
  \<open>0\<close> to \<open>9\<close>. A \<^verbatim>\<open>datetime\<close> on 1900-01-01 is its number of minutes since midnight.
\<close>

definition in_class :: "char \<Rightarrow> string \<Rightarrow> bool" where
  "in_class c cs = (c \<in> set cs)"

definition is_digit :: "char \<Rightarrow> bool" where
  "is_digit c = in_class c ''0123456789''"

definition digit_val :: "char \<Rightarrow> nat" where
  "digit_val c = of_char c - 48"

definition match_H :: "string \<Rightarrow> (nat \<times> string) list" where
  "match_H s =
     (case s of
        a # b # r \<Rightarrow>
          (if a = CHR ''2'' \<and> in_class b ''0123'' then [(20 + digit_val b, r)] else [])
          @ (if in_class a ''01'' \<and> is_digit b then [(10 * digit_val a + digit_val b, r)] else [])
          @ (if is_digit a then [(digit_val a, b # r)] else [])
      | [a] \<Rightarrow> (if is_digit a then [(digit_val a, [])] else [])
      | [] \<Rightarrow> [])"

definition match_M :: "string \<Rightarrow> (nat \<times> string) list" where
  "match_M s =
     (case s of
        a # b # r \<Rightarrow>
          (if in_class a ''012345'' \<and> is_digit b then [(10 * digit_val a + digit_val b, r)] else [])
          @ (if is_digit a then [(digit_val a, b # r)] else [])
      | [a] \<Rightarrow> (if is_digit a then [(digit_val a, [])] else [])
      | [] \<Rightarrow> [])"

definition match_colon :: "string \<Rightarrow> string list" where
  "match_colon s = (case s of c # r \<Rightarrow> (if c = CHR '':'' then [r] else []) | [] \<Rightarrow> [])"

definition regex_HM :: "string \<Rightarrow> (nat \<times> nat \<times> string) option" where
  "regex_HM s =
     (case [(h, m, r2). (h, r0) \<leftarrow> match_H s, r1 \<leftarrow> match_colon r0, (m, r2) \<leftarrow> match_M r1] of
        [] \<Rightarrow> None
      | found # _ \<Rightarrow> Some found)"

definition strptime_HM :: "string \<Rightarrow> error + int" where
  "strptime_HM data_string =
     (case regex_HM data_string of
        None \<Rightarrow> Inl ValueError
      | Some (h, m, rest) \<Rightarrow>
          if rest \<noteq> [] then Inl ValueError else Inr (60 * int h + int m))"

text \<open>
  Floats. The value of a float is a rational; \<open>binary64\<close> rounds a rational to the
  nearest number with a 53-bit significand, ties to even, which is what a float
  operation does to its exact result (exponent range aside: the values here lie between
  \<open>1 / 60\<close> and \<open>86400\<close>). \<open>ilog2 x\<close> is the exponent of the leading bit of
  \<open>x > 0\<close>. \<^verbatim>\<open>round(x, 1)\<close> is the float nearest to the one-decimal number nearest
  to the exact value of \<open>x\<close>, ties to even.
\<close>

definition round_half_even :: "rat \<Rightarrow> int" where
  "round_half_even x =
     (let f = \<lfloor>x\<rfloor>; r = x - of_int f
      in if r < 1 / 2 then f else if 1 / 2 < r then f + 1 else if even f then f else f + 1)"

definition ilog2 :: "rat \<Rightarrow> int" where
  "ilog2 x =
     (case quotient_of x of (n, d) \<Rightarrow>
        let e = int (floorlog 2 (nat n)) - int (floorlog 2 (nat d))
        in if 2 powi e \<le> x then e else e - 1)"

definition binary64 :: "rat \<Rightarrow> rat" where
  "binary64 x =
     (if x = 0 then 0
      else let e = ilog2 \<bar>x\<bar> - 52
           in of_int (round_half_even (x / 2 powi e)) * 2 powi e)"

definition py_round1 :: "rat \<Rightarrow> rat" where
  "py_round1 x = binary64 (of_int (round_half_even (x * 10)) / 10)"

text \<open>
  \<open>sleep_try\<close> is the body of the \<^verbatim>\<open>try\<close>; the bare \<^verbatim>\<open>except\<close> turns every exception
  into 0.0. \<^verbatim>\<open>total_seconds()\<close> is the float of the number of seconds.
\<close>

definition sleep_try :: "string \<Rightarrow> string \<Rightarrow> error + rat" where
  "sleep_try bed_time wake_time =
     (case strptime_HM bed_time of
        Inl e \<Rightarrow> Inl e
      | Inr bed \<Rightarrow>
          (case strptime_HM wake_time of
             Inl e \<Rightarrow> Inl e
           | Inr wake0 \<Rightarrow>
               let wake = (if wake0 < bed then wake0 + 1440 else wake0);
                   total_seconds = binary64 (of_int (60 * (wake - bed)));
                   hours = binary64 (total_seconds / 3600)
               in Inr (py_round1 hours)))"

definition calculate_sleep_hours :: "string \<Rightarrow> string \<Rightarrow> rat" where
  "calculate_sleep_hours bed_time wake_time =
     (if bed_time = [] \<or> wake_time = [] then 0
      else (case sleep_try bed_time wake_time of Inl _ \<Rightarrow> 0 | Inr h \<Rightarrow> h))"


section \<open>Session steps\<close>

text \<open>
  The places of \<^verbatim>\<open>main\<close> that query the journal: the record of the day being viewed
  is fetched with \<^verbatim>\<open>get_day_data\<close>, and the analytics tab calls
  \<^verbatim>\<open>get_analytics_data\<close>. Neither calls \<^verbatim>\<open>save_data\<close>.
\<close>

definition view_day :: "world \<Rightarrow> day_record \<times> world" where
  "view_day w =
     (let (current_day, d') = get_day_data (data w) (get_date_key (current_date w))
      in (current_day, w\<lparr> data := d' \<rparr>))"

definition view_analytics ::
  "(nat \<Rightarrow> date) \<Rightarrow> int \<Rightarrow> world \<Rightarrow> (error + daily_stat list) \<times> world" where
  "view_analytics today days w =
     (let (stats, d') = get_analytics_data today (data w) days
      in (stats, w\<lparr> data := d' \<rparr>))"

text \<open>
  The food form of \<^verbatim>\<open>main\<close>. \<open>now\<close> is the timestamp that becomes the entry's id.
  \<^verbatim>\<open>current_day\<close> is the journal's own dictionary for the day, so that appending to
  its entries and setting its total change the journal; the \<^verbatim>\<open>update_and_save\<close> that
  follows updates the record with itself and writes the file. Indexing a record that
  has no \<^verbatim>\<open>diet\<close> or no \<^verbatim>\<open>entries\<close> raises before anything is changed.
\<close>

definition add_food :: "string \<Rightarrow> int \<Rightarrow> int \<Rightarrow> world \<Rightarrow> error + world" where
  "add_food food_name food_cals now w =
     (let date_key = get_date_key (current_date w);
          (current_day, d1) = get_day_data (data w) date_key
      in if food_name \<noteq> []
         then (case diet current_day of
                 None \<Rightarrow> Inl KeyError
               | Some di \<Rightarrow>
                   (case entries di of
                      None \<Rightarrow> Inl KeyError
                    | Some es \<Rightarrow>
                        let es' = es @ [\<lparr> entry_id = now, food = food_name, calories = food_cals \<rparr>];
                            di' = di\<lparr> entries := Some es',
                                      totalCalories := Some (sum_list (map calories es')) \<rparr>;
                            current_day' = current_day\<lparr> diet := Some di' \<rparr>
                        in Inr (update_and_save current_day'
                                  (w\<lparr> data := d1(date_key \<mapsto> current_day') \<rparr>))))
         else Inr (w\<lparr> data := d1 \<rparr>))"

section \<open>Notions the properties are stated with\<close>

text \<open>
  The day \<open>i\<close> days before \<open>today\<close> is flagged when the journal has a record for it
  whose \<^verbatim>\<open>nofapStreak\<close> is 1.
\<close>

definition flagged :: "store \<Rightarrow> date \<Rightarrow> nat \<Rightarrow> bool" where
  "flagged d today i =
     (case d (get_date_key (today - int i)) of None \<Rightarrow> False | Some r \<Rightarrow> nofapStreak r = Some 1)"

text \<open>A journal in which today and each of the 365 days before it are flagged.\<close>

definition year_store :: "date \<Rightarrow> store" where
  "year_store today =
     map_of (map (\<lambda>i. (get_date_key (today - int i), default_day\<lparr> nofapStreak := Some 1 \<rparr>)) [0..<366])"

text \<open>
  A clock that gives the date \<open>t\<close> at every reading, and the windows whose dates all
  exist: at every offset the subtraction is within the range of \<^verbatim>\<open>timedelta\<close> and of
  \<^verbatim>\<open>date\<close>.
\<close>

definition fixed_clock :: "date \<Rightarrow> nat \<Rightarrow> date" where
  "fixed_clock t i = t"

definition window_in_range :: "(nat \<Rightarrow> date) \<Rightarrow> int \<Rightarrow> bool" where
  "window_in_range today days =
     (\<forall>i < nat days. int i \<le> 999999999 \<and> 0 < today i - int i \<and> today i - int i \<le> 3652059)"

text \<open>A record that has every field of a day record, and every field of its sub-objects.\<close>

definition fully_populated :: "day_record \<Rightarrow> bool" where
  "fully_populated r =
     (workTasks r \<noteq> None
      \<and> (case fitness r of None \<Rightarrow> False | Some f \<Rightarrow> duration f \<noteq> None \<and> caloriesBurnt f \<noteq> None)
      \<and> (case faceHealth r of None \<Rightarrow> False | Some f \<Rightarrow> items f \<noteq> None)
      \<and> (case diet r of None \<Rightarrow> False | Some di \<Rightarrow> entries di \<noteq> None \<and> totalCalories di \<noteq> None)
      \<and> energy r \<noteq> None
      \<and> (case sleep r of None \<Rightarrow> False
          | Some sl \<Rightarrow> bedTime sl \<noteq> None \<and> wakeTime sl \<noteq> None \<and> hours sl \<noteq> None)
      \<and> nofapStreak r \<noteq> None)"

text \<open>The text of a time of day, as \<^verbatim>\<open>strftime('%H:%M')\<close> writes it.\<close>

definition hhmm :: "nat \<Rightarrow> nat \<Rightarrow> string" where
  "hhmm h m = pad2 (int h) @ '':'' @ pad2 (int m)"

text \<open>A session started today with no data file.\<close>

definition fresh_world :: world where
  "fresh_world = \<lparr> data = Map.empty, current_date = 739923, disk = NoFile \<rparr>"

text \<open>
  A session whose journal has a night's sleep recorded for today, a partial record that
  supplies a sleep object without hours, and the session after one food entry.
\<close>

definition slept_world :: world where
  "slept_world =
     \<lparr> data = [''2026-11-03'' \<mapsto> default_day\<lparr> sleep :=
                 Some \<lparr> bedTime = Some ''23:30'', wakeTime = Some ''06:00'', hours = Some (13 / 2) \<rparr> \<rparr>],
       current_date = 739923, disk = NoFile \<rparr>"

definition sleep_without_hours :: day_record where
  "sleep_without_hours =
     \<lparr> workTasks = None, fitness = None, faceHealth = None, diet = None, energy = None,
       sleep = Some \<lparr> bedTime = Some ''22:00'', wakeTime = Some ''05:00'', hours = None \<rparr>,
       nofapStreak = None \<rparr>"

definition fed_world :: world where
  "fed_world =
     \<lparr> data = [''2026-11-03'' \<mapsto> default_day\<lparr> diet :=
                 Some \<lparr> entries = Some [\<lparr> entry_id = 1, food = ''A'', calories = 200 \<rparr>],
                        totalCalories = Some 200 \<rparr> \<rparr>],
       current_date = 739923,
       disk = Json [''2026-11-03'' \<mapsto> default_day\<lparr> diet :=
                 Some \<lparr> entries = Some [\<lparr> entry_id = 1, food = ''A'', calories = 200 \<rparr>],
                        totalCalories = Some 200 \<rparr> \<rparr>] \<rparr>"

section \<open>Loading\<close>

text \<open>
  C9. Loading never raises: \<open>load_data\<close> is a total function to journals, every
  exception of opening and parsing being caught, and when the file is missing or
  cannot be opened or parsed the journal it yields is empty.
\<close>

theorem load_data_failure_empty:
  "\<not> path_exists f \<or> (\<exists>e. json_load f = Inl e) \<Longrightarrow> load_data f = Map.empty"
proof (cases "path_exists f")
  case False
  then show ?thesis by (simp add: load_data_def)
next
  case True
  assume "\<not> path_exists f \<or> (\<exists>e. json_load f = Inl e)"
  with True obtain e where "json_load f = Inl e" by blast
  then show ?thesis by (simp add: load_data_def)
qed

theorem load_data_failure_empty_witness:
  "json_load Garbage = Inl JSONDecodeError \<and> load_data Garbage = Map.empty
   \<and> path_exists NoFile = False \<and> load_data NoFile = Map.empty"
proof -
  have a: "json_load Garbage = Inl JSONDecodeError" by (simp add: json_load_def)
  have b: "path_exists NoFile = False" by (simp add: path_exists_def)
  from a have h: "\<not> path_exists Garbage \<or> (\<exists>e. json_load Garbage = Inl e)" by blast
  from b have g: "\<not> path_exists NoFile \<or> (\<exists>e. json_load NoFile = Inl e)" by blast
  from a b load_data_failure_empty [OF h] load_data_failure_empty [OF g]
  show ?thesis by blast
qed

section \<open>Streak calculator: properties\<close>

lemma streak_loop_store: "snd (streak_loop current is streak d) = d"
  by (induction "is" arbitrary: streak) (simp_all add: Let_def)

lemma streak_loop_takeWhile:
  "0 \<notin> set is \<Longrightarrow>
   fst (streak_loop current is streak d) = streak + length (takeWhile (flagged d current) is)"
  by (induction "is" arbitrary: streak) (auto simp: Let_def flagged_def)

lemma streak_value:
  "fst (calculate_nofap_streak today d) =
     (if flagged d today 0 then 1 else 0) + length (takeWhile (flagged d today) [1..<365])"
proof -
  have u: "[0..<365] = 0 # [1..<365]" using upt_conv_Cons [of 0 365] by simp
  have z: "0 \<notin> set [1..<365]" by simp
  show ?thesis
    unfolding calculate_nofap_streak_def u
    using streak_loop_takeWhile [OF z, of today _ d]
    by (simp add: Let_def flagged_def)
qed

lemma takeWhile_upt_run:
  fixes P :: "nat \<Rightarrow> bool" and a b :: nat
  defines "k \<equiv> length (takeWhile P [a..<b])"
  shows "(\<forall>j<k. P (a + j)) \<and> a + k \<le> max a b \<and> (a + k < b \<longrightarrow> \<not> P (a + k))"
proof (intro conjI allI impI)
  have le: "k \<le> length [a..<b]" unfolding k_def by (rule length_takeWhile_le)
  then show "a + k \<le> max a b" by simp
  fix j assume "j < k"
  then have "takeWhile P [a..<b] ! j \<in> set (takeWhile P [a..<b])" unfolding k_def by simp
  moreover have "takeWhile P [a..<b] ! j = [a..<b] ! j" using \<open>j < k\<close> unfolding k_def by (rule takeWhile_nth)
  moreover have "[a..<b] ! j = a + j" using \<open>j < k\<close> le by simp
  ultimately show "P (a + j)" using set_takeWhileD by metis
next
  assume "a + k < b"
  then have "k < length [a..<b]" by simp
  then have "\<not> P ([a..<b] ! k)" unfolding k_def by (rule nth_length_takeWhile)
  then show "\<not> P (a + k)" using \<open>a + k < b\<close> by simp
qed

lemma year_store_flagged: "i < 366 \<Longrightarrow> flagged (year_store today) today i"
proof -
  assume i: "i < 366"
  let ?f = "\<lambda>i. (get_date_key (today - int i), default_day\<lparr> nofapStreak := Some 1 \<rparr>)"
  have "\<And>k xs. k \<in> set xs \<Longrightarrow> map_of (map ?f xs) (fst (?f k)) = Some (snd (?f k))"
  proof -
    fix k :: nat and xs show "k \<in> set xs \<Longrightarrow> map_of (map ?f xs) (fst (?f k)) = Some (snd (?f k))"
      by (induction xs) auto
  qed
  from this [of i "[0..<366]"] i show ?thesis
    by (simp add: year_store_def flagged_def)
qed

lemma streak_full_lookback:
  assumes "\<forall>i<365. flagged d today i"
  shows "fst (calculate_nofap_streak today d) = 365"
proof -
  have "takeWhile (flagged d today) [1..<365] = [1..<365]"
    using assms by (intro takeWhile_eq_all_conv [THEN iffD2]) simp
  then have "length (takeWhile (flagged d today) [1..<365]) = length [1..<365]"
    by (rule arg_cong)
  moreover have "flagged d today 0" using assms by simp
  ultimately show ?thesis by (simp add: streak_value)
qed

text \<open>
  C1, as stated, at a journal with more than 365 flagged days in a row: today and the
  365 days before it are all flagged, a run of 366 days, and the calculator returns 365.
\<close>

theorem streak_run_counterexample:
  "list_all (flagged (year_store 739923) 739923) [0..<366]
   \<and> fst (calculate_nofap_streak 739923 (year_store 739923)) = 365"
proof
  show "list_all (flagged (year_store 739923) 739923) [0..<366]"
    by (simp add: list_all_iff year_store_flagged)
  show "fst (calculate_nofap_streak 739923 (year_store 739923)) = 365"
    by (rule streak_full_lookback) (simp add: year_store_flagged)
qed

text \<open>
  C1, amended. The calculator returns the length \<open>r\<close> of the most recent run of
  flagged days within the offsets 0 to 364 that the loop scans. The run starts at
  offset \<open>s\<close>, which is 0 when today is flagged and 1 otherwise (today absent or
  unflagged is tolerated and contributes nothing); every day of the run is flagged; the
  run ends at the first later day that is absent or unflagged, or at the end of the
  365-day lookback. In particular yesterday and today flagged with the day before
  unflagged gives 2, today flagged with yesterday unflagged gives 1, and neither
  flagged gives 0.
\<close>

theorem streak_run_within_lookback:
  fixes d :: store and today :: date
  defines "r \<equiv> fst (calculate_nofap_streak today d)"
    and "s \<equiv> (if flagged d today 0 then 0 else 1)"
  shows "(\<forall>j<r. flagged d today (s + j))
       \<and> s + r \<le> 365
       \<and> (s + r < 365 \<longrightarrow> \<not> flagged d today (s + r))
       \<and> (flagged d today 0 \<and> flagged d today 1 \<and> \<not> flagged d today 2 \<longrightarrow> r = 2)
       \<and> (flagged d today 0 \<and> \<not> flagged d today 1 \<longrightarrow> r = 1)
       \<and> (\<not> flagged d today 0 \<and> \<not> flagged d today 1 \<longrightarrow> r = 0)"
proof -
  define k where "k = length (takeWhile (flagged d today) [1..<365])"
  have run: "(\<forall>j<k. flagged d today (1 + j)) \<and> 1 + k \<le> 365
             \<and> (1 + k < 365 \<longrightarrow> \<not> flagged d today (1 + k))"
    using takeWhile_upt_run [of "flagged d today" 1 365] unfolding k_def by simp
  have r: "r = (if flagged d today 0 then 1 else 0) + k"
    unfolding r_def k_def by (rule streak_value)
  have a: "\<forall>j<r. flagged d today (s + j)"
  proof (intro allI impI)
    fix j assume j: "j < r"
    show "flagged d today (s + j)"
    proof (cases "flagged d today 0")
      case True
      show ?thesis
      proof (cases j)
        case 0 with True show ?thesis by (simp add: s_def)
      next
        case (Suc j')
        with j r True have "j' < k" by simp
        with run have "flagged d today (1 + j')" by blast
        with Suc True show ?thesis by (simp add: s_def)
      qed
    next
      case False
      with j r have "j < k" by simp
      with run have "flagged d today (1 + j)" by blast
      with False show ?thesis by (simp add: s_def)
    qed
  qed
  have b: "s + r \<le> 365" using run r by (simp add: s_def)
  have c: "s + r < 365 \<longrightarrow> \<not> flagged d today (s + r)"
    using run r by (auto simp: s_def)
  have e1: "flagged d today 0 \<and> flagged d today 1 \<and> \<not> flagged d today 2 \<longrightarrow> r = 2"
  proof
    assume h: "flagged d today 0 \<and> flagged d today 1 \<and> \<not> flagged d today 2"
    then have s0: "s = 0" by (simp add: s_def)
    have "\<not> 2 < r" using a h s0 by auto
    moreover have "r \<noteq> 1"
    proof
      assume "r = 1"
      with c s0 have "\<not> flagged d today 1" by simp
      with h show False by simp
    qed
    moreover have "r \<noteq> 0"
    proof
      assume "r = 0"
      with c s0 have "\<not> flagged d today 0" by simp
      with h show False by simp
    qed
    ultimately show "r = 2" by arith
  qed
  have e2: "flagged d today 0 \<and> \<not> flagged d today 1 \<longrightarrow> r = 1"
  proof
    assume h: "flagged d today 0 \<and> \<not> flagged d today 1"
    then have s0: "s = 0" by (simp add: s_def)
    have "\<not> 1 < r" using a h s0 by auto
    moreover have "r \<noteq> 0"
    proof
      assume "r = 0"
      with c s0 have "\<not> flagged d today 0" by simp
      with h show False by simp
    qed
    ultimately show "r = 1" by arith
  qed
  have e3: "\<not> flagged d today 0 \<and> \<not> flagged d today 1 \<longrightarrow> r = 0"
  proof
    assume h: "\<not> flagged d today 0 \<and> \<not> flagged d today 1"
    then have s1: "s = 1" by (simp add: s_def)
    have "\<not> 0 < r" using a h s1 by auto
    then show "r = 0" by simp
  qed
  from a b c e1 e2 e3 show ?thesis by blast
qed

theorem streak_run_within_lookback_witness:
  "(flagged [''2026-11-02'' \<mapsto> default_day\<lparr>nofapStreak := Some 1\<rparr>,
             ''2026-11-03'' \<mapsto> default_day\<lparr>nofapStreak := Some 1\<rparr>] 739923 0
    \<and> flagged [''2026-11-02'' \<mapsto> default_day\<lparr>nofapStreak := Some 1\<rparr>,
               ''2026-11-03'' \<mapsto> default_day\<lparr>nofapStreak := Some 1\<rparr>] 739923 1
    \<and> \<not> flagged [''2026-11-02'' \<mapsto> default_day\<lparr>nofapStreak := Some 1\<rparr>,
                 ''2026-11-03'' \<mapsto> default_day\<lparr>nofapStreak := Some 1\<rparr>] 739923 2
    \<and> fst (calculate_nofap_streak 739923
              [''2026-11-02'' \<mapsto> default_day\<lparr>nofapStreak := Some 1\<rparr>,
               ''2026-11-03'' \<mapsto> default_day\<lparr>nofapStreak := Some 1\<rparr>]) = 2)
   \<and> (flagged [''2026-11-02'' \<mapsto> default_day,
               ''2026-11-03'' \<mapsto> default_day\<lparr>nofapStreak := Some 1\<rparr>] 739923 0
    \<and> \<not> flagged [''2026-11-02'' \<mapsto> default_day,
                 ''2026-11-03'' \<mapsto> default_day\<lparr>nofapStreak := Some 1\<rparr>] 739923 1
    \<and> fst (calculate_nofap_streak 739923
              [''2026-11-02'' \<mapsto> default_day,
               ''2026-11-03'' \<mapsto> default_day\<lparr>nofapStreak := Some 1\<rparr>]) = 1)
   \<and> (\<not> flagged [''2026-11-02'' \<mapsto> default_day] 739923 0
    \<and> \<not> flagged [''2026-11-02'' \<mapsto> default_day] 739923 1
    \<and> fst (calculate_nofap_streak 739923 [''2026-11-02'' \<mapsto> default_day]) = 0)"
proof -
  have k0: "get_date_key 739923 = ''2026-11-03''" by code_simp
  have k1: "get_date_key 739922 = ''2026-11-02''" by code_simp
  have k2: "get_date_key 739921 = ''2026-11-01''" by code_simp
  let ?a = "[''2026-11-02'' \<mapsto> default_day\<lparr>nofapStreak := Some 1\<rparr>,
             ''2026-11-03'' \<mapsto> default_day\<lparr>nofapStreak := Some 1\<rparr>]"
  let ?b = "[''2026-11-02'' \<mapsto> default_day,
             ''2026-11-03'' \<mapsto> default_day\<lparr>nofapStreak := Some 1\<rparr>]"
  let ?c = "[''2026-11-02'' \<mapsto> default_day]"
  have a: "flagged ?a 739923 0 \<and> flagged ?a 739923 1 \<and> \<not> flagged ?a 739923 2"
    by (simp add: flagged_def k0 k1 k2)
  have b: "flagged ?b 739923 0 \<and> \<not> flagged ?b 739923 1"
    by (simp add: flagged_def k0 k1 default_day_def)
  have c: "\<not> flagged ?c 739923 0 \<and> \<not> flagged ?c 739923 1"
    by (simp add: flagged_def k0 k1 default_day_def)
  from a streak_run_within_lookback [where d = "?a" and today = 739923]
  have ra: "fst (calculate_nofap_streak 739923 ?a) = 2" by blast
  from b streak_run_within_lookback [where d = "?b" and today = 739923]
  have rb: "fst (calculate_nofap_streak 739923 ?b) = 1" by blast
  from c streak_run_within_lookback [where d = "?c" and today = 739923]
  have rc: "fst (calculate_nofap_streak 739923 ?c) = 0" by blast
  from a b c ra rb rc show ?thesis by blast
qed

text \<open>
  C4. Computing the streak leaves the journal as it was: the journal that comes out of
  the calculator is the one that went in, with the same keys and the same records.
\<close>

theorem streak_leaves_store:
  "snd (calculate_nofap_streak today d) = d"
  unfolding calculate_nofap_streak_def by (rule streak_loop_store)

section \<open>Analytics aggregator: properties\<close>

lemma date_minus_days_Inr: "date_minus_days d n = Inr x \<Longrightarrow> x = d - n"
  by (auto simp: date_minus_days_def Let_def split: if_splits)

lemma date_minus_days_in_range:
  "int i \<le> 999999999 \<Longrightarrow> 0 < t - int i \<Longrightarrow> t - int i \<le> 3652059 \<Longrightarrow>
   date_minus_days t (int i) = Inr (t - int i)"
  by (simp add: date_minus_days_def Let_def)

lemma analytics_loop_raises:
  "date_minus_days (today i) (int i) = Inl e \<Longrightarrow> analytics_loop today (i # rest) stats d = (Inl e, d)"
  by simp

lemma analytics_loop_returns:
  assumes "\<forall>i\<in>set is. int i \<le> 999999999 \<and> 0 < today i - int i \<and> today i - int i \<le> 3652059"
  shows "\<exists>st d'. analytics_loop today is stats d = (Inr st, d')"
  using assms
proof (induction "is" arbitrary: stats d)
  case Nil
  show ?case by simp
next
  case (Cons i "is")
  have s: "date_minus_days (today i) (int i) = Inr (today i - int i)"
    using Cons.prems by (intro date_minus_days_in_range) simp_all
  obtain r d1 where g: "get_day_data d (get_date_key (today i - int i)) = (r, d1)"
    by (cases "get_day_data d (get_date_key (today i - int i))")
  have "\<forall>j\<in>set is. int j \<le> 999999999 \<and> 0 < today j - int j \<and> today j - int j \<le> 3652059"
    using Cons.prems by simp
  from Cons.IH [OF this, of "stats @ [day_stat (today i - int i) r]" d1]
  show ?case using s g by (simp add: Let_def)
qed

lemma analytics_loop_step:
  assumes "analytics_loop today (i # is) stats d = (Inr st, d')"
  obtains r d1 where "get_day_data d (get_date_key (today i - int i)) = (r, d1)"
    and "analytics_loop today is (stats @ [day_stat (today i - int i) r]) d1 = (Inr st, d')"
proof -
  obtain cd where c: "date_minus_days (today i) (int i) = Inr cd"
    using assms by (cases "date_minus_days (today i) (int i)") simp_all
  then have cd: "cd = today i - int i" by (rule date_minus_days_Inr)
  obtain r d1 where g: "get_day_data d (get_date_key (today i - int i)) = (r, d1)"
    by (cases "get_day_data d (get_date_key (today i - int i))")
  have "analytics_loop today is (stats @ [day_stat (today i - int i) r]) d1 = (Inr st, d')"
    using assms c g unfolding cd by (simp add: Let_def)
  with g show ?thesis by (rule that)
qed

lemma analytics_loop_dates:
  "analytics_loop today is stats d = (Inr st, d') \<Longrightarrow>
   map date st = map date stats @ map (\<lambda>i. today i - int i) is"
proof (induction "is" arbitrary: stats d)
  case Nil
  then show ?case by simp
next
  case (Cons i "is")
  from Cons.prems obtain r d1
    where "analytics_loop today is (stats @ [day_stat (today i - int i) r]) d1 = (Inr st, d')"
    by (rule analytics_loop_step)
  from Cons.IH [OF this] show ?case by (simp add: day_stat_def)
qed

lemma rev_upt_Suc: "rev [0..<Suc k] = k # rev [0..<k]"
  by simp

lemma window_dates: "map (\<lambda>i. today - int i) (rev [0..<k]) = [today - int k + 1..today]"
proof (induction k)
  case 0
  show ?case by simp
next
  case (Suc k)
  have "[today - int (Suc k) + 1..today] = (today - int k) # [today - int k + 1..today]"
    by (subst upto_rec1) simp_all
  with Suc show ?case by (simp add: rev_map)
qed

text \<open>
  C2, as stated, at a day count larger than today's ordinal: today is 2026-11-03, of
  ordinal 739923, and the window of 739924 days would start before 0001-01-01. The call
  raises \<^verbatim>\<open>OverflowError\<close> at its first iteration and returns no entries.
\<close>

theorem window_dates_counterexample:
  "get_analytics_data (fixed_clock 739923) Map.empty 739924 = (Inl OverflowError, Map.empty)"
proof -
  have n: "nat 739924 = Suc 739923" by simp
  have "date_minus_days (fixed_clock 739923 739923) (int 739923) = Inl OverflowError"
    by (simp add: date_minus_days_def fixed_clock_def)
  then show ?thesis
    unfolding get_analytics_data_def n rev_upt_Suc by (rule analytics_loop_raises)
qed

text \<open>
  C2, amended. For every journal and every positive day count, while the clock gives
  the same date \<open>t\<close>, today, at every iteration: when the day count does not exceed
  today's ordinal, so that every date of the window exists, the window is returned and
  has exactly that many entries; their dates are the consecutive days that end at
  today, oldest first, hence strictly increasing, each the day after the one before
  it, the last being today. When the day count exceeds today's ordinal the call raises
  \<^verbatim>\<open>OverflowError\<close>, with the journal untouched.
\<close>

theorem window_dates_consecutive:
  assumes "0 < days" and "\<forall>i < nat days. today i = t"
  shows "(days \<le> t \<and> t \<le> 3652059 \<longrightarrow>
           (\<exists>stats d'. get_analytics_data today d days = (Inr stats, d')
              \<and> length stats = nat days
              \<and> map date stats = [t - days + 1..t]
              \<and> sorted_wrt (<) (map date stats)
              \<and> (\<forall>j. Suc j < nat days \<longrightarrow> date (stats ! Suc j) = date (stats ! j) + 1)
              \<and> date (last stats) = t))
       \<and> (t < days \<longrightarrow> get_analytics_data today d days = (Inl OverflowError, d))"
proof (intro conjI impI)
  assume r: "days \<le> t \<and> t \<le> 3652059"
  have "\<forall>i\<in>set (rev [0..<nat days]).
          int i \<le> 999999999 \<and> 0 < today i - int i \<and> today i - int i \<le> 3652059"
    using r assms by auto
  then obtain stats d' where g: "analytics_loop today (rev [0..<nat days]) [] d = (Inr stats, d')"
    using analytics_loop_returns by blast
  have "map (\<lambda>i. today i - int i) (rev [0..<nat days]) = map (\<lambda>i. t - int i) (rev [0..<nat days])"
    using assms(2) by (intro map_cong) simp_all
  then have dates: "map date stats = [t - days + 1..t]"
    using analytics_loop_dates [OF g] window_dates [of t "nat days"] assms(1) by simp
  have len: "length stats = nat days"
    using arg_cong [OF dates, of length] assms(1) by simp
  have srt: "sorted_wrt (<) (map date stats)"
    unfolding dates by (simp add: sorted_wrt_upto)
  have nth: "\<And>j. j < nat days \<Longrightarrow> date (stats ! j) = t - days + 1 + int j"
  proof -
    fix j assume j: "j < nat days"
    then have "date (stats ! j) = map date stats ! j" using len by simp
    also have "\<dots> = t - days + 1 + int j" unfolding dates using j by simp
    finally show "date (stats ! j) = t - days + 1 + int j" .
  qed
  have cons: "\<forall>j. Suc j < nat days \<longrightarrow> date (stats ! Suc j) = date (stats ! j) + 1"
    using nth by simp
  have "stats \<noteq> []" using len assms(1) by auto
  then have "date (last stats) = date (stats ! (nat days - 1))"
    using len by (simp add: last_conv_nth)
  also have "\<dots> = t" using nth [of "nat days - 1"] assms(1) by simp
  finally have lst: "date (last stats) = t" .
  from g len dates srt cons lst
  show "\<exists>stats d'. get_analytics_data today d days = (Inr stats, d')
              \<and> length stats = nat days
              \<and> map date stats = [t - days + 1..t]
              \<and> sorted_wrt (<) (map date stats)
              \<and> (\<forall>j. Suc j < nat days \<longrightarrow> date (stats ! Suc j) = date (stats ! j) + 1)
              \<and> date (last stats) = t"
    unfolding get_analytics_data_def by blast
next
  assume l: "t < days"
  define k where "k = nat days - 1"
  have k: "nat days = Suc k" using assms(1) unfolding k_def by simp
  have u: "rev [0..<nat days] = k # rev [0..<k]" unfolding k by (rule rev_upt_Suc)
  have "today k = t" using assms(2) k by simp
  moreover have "t - int k \<le> 0" using l assms(1) unfolding k_def by simp
  ultimately have "date_minus_days (today k) (int k) = Inl OverflowError"
    by (simp add: date_minus_days_def Let_def)
  then show "get_analytics_data today d days = (Inl OverflowError, d)"
    unfolding get_analytics_data_def u by (rule analytics_loop_raises)
qed

theorem window_dates_consecutive_witness:
  "(0::int) < 7 \<and> (7::int) \<le> 739923 \<and> (739923::int) \<le> 3652059
   \<and> fixed_clock 739923 3 = 739923
   \<and> (\<exists>stats d'. get_analytics_data (fixed_clock 739923) Map.empty 7 = (Inr stats, d')
         \<and> length stats = 7
         \<and> map date stats = [739917, 739918, 739919, 739920, 739921, 739922, 739923]
         \<and> date (last stats) = 739923)
   \<and> (739923::int) < 800000
   \<and> get_analytics_data (fixed_clock 739923) Map.empty 800000 = (Inl OverflowError, Map.empty)"
proof -
  have h: "(0::int) < 7" and h': "(0::int) < 800000" by simp_all
  have c: "\<forall>i < nat 7. fixed_clock 739923 i = 739923"
    and c': "\<forall>i < nat 800000. fixed_clock 739923 i = 739923"
    by (simp_all add: fixed_clock_def)
  have u: "[739923 - 7 + 1..739923] = [739917, 739918, 739919, 739920, 739921, 739922, 739923::int]"
    by code_simp
  from window_dates_consecutive [OF h c, of Map.empty]
  obtain stats d' where g: "get_analytics_data (fixed_clock 739923) Map.empty 7 = (Inr stats, d')"
    and l: "length stats = nat 7"
    and m: "map date stats = [739923 - 7 + 1..739923]"
    and e: "date (last stats) = 739923"
    by auto
  from l have l': "length stats = 7" by simp
  from m have m': "map date stats = [739917, 739918, 739919, 739920, 739921, 739922, 739923]"
    unfolding u .
  have a: "\<exists>stats d'. get_analytics_data (fixed_clock 739923) Map.empty 7 = (Inr stats, d')
         \<and> length stats = 7
         \<and> map date stats = [739917, 739918, 739919, 739920, 739921, 739922, 739923]
         \<and> date (last stats) = 739923"
    by (rule exI [where x = stats], rule exI [where x = d']) (simp only: g l' m' e simp_thms)
  have lt: "(739923::int) < 800000" by simp
  from window_dates_consecutive [OF h' c', of Map.empty, THEN conjunct2, THEN mp, OF lt]
  have b: "get_analytics_data (fixed_clock 739923) Map.empty 800000 = (Inl OverflowError, Map.empty)" .
  have f: "fixed_clock 739923 3 = 739923" by (simp add: fixed_clock_def)
  have n: "(7::int) \<le> 739923" "(739923::int) \<le> 3652059" by simp_all
  from h n f a lt b show ?thesis by (intro conjI)
qed

lemma analytics_loop_untouched:
  assumes "analytics_loop today is stats dc = (Inr st, d')"
    and "\<forall>k. d0 k = None \<longrightarrow> dc k = None \<or> dc k = Some default_day"
    and "\<forall>s\<in>set stats. d0 (get_date_key (date s)) = None \<longrightarrow> s = day_stat (date s) default_day"
  shows "\<forall>s\<in>set st. d0 (get_date_key (date s)) = None \<longrightarrow> s = day_stat (date s) default_day"
  using assms
proof (induction "is" arbitrary: stats dc)
  case Nil
  then show ?case by simp
next
  case (Cons i "is")
  let ?cd = "today i - int i"
  let ?k = "get_date_key ?cd"
  from Cons.prems(1) obtain r d1 where g: "get_day_data dc ?k = (r, d1)"
    and n: "analytics_loop today is (stats @ [day_stat ?cd r]) d1 = (Inr st, d')"
    by (rule analytics_loop_step)
  have r: "d0 ?k = None \<longrightarrow> r = default_day"
  proof
    assume "d0 ?k = None"
    with Cons.prems(2) have "dc ?k = None \<or> dc ?k = Some default_day" by blast
    with g show "r = default_day" by (auto simp: get_day_data_def)
  qed
  have d1: "\<forall>k. d0 k = None \<longrightarrow> d1 k = None \<or> d1 k = Some default_day"
  proof (intro allI impI)
    fix k assume "d0 k = None"
    with Cons.prems(2) have "dc k = None \<or> dc k = Some default_day" by blast
    moreover have "d1 = dc \<or> d1 = dc(?k \<mapsto> default_day)"
      using g by (auto simp: get_day_data_def split: option.splits)
    ultimately show "d1 k = None \<or> d1 k = Some default_day"
      by (cases "k = ?k") auto
  qed
  have dt: "date (day_stat ?cd r) = ?cd" by (simp add: day_stat_def)
  have st: "\<forall>s\<in>set (stats @ [day_stat ?cd r]).
              d0 (get_date_key (date s)) = None \<longrightarrow> s = day_stat (date s) default_day"
    using Cons.prems(3) r dt by auto
  show ?case using Cons.IH [OF n d1 st] .
qed

text \<open>
  C6, as stated, at an empty journal and a window of one day: today has no record, and
  the energy of its entry is 3, not zero.
\<close>

theorem untouched_day_stat_counterexample:
  "Map.empty (get_date_key 739923) = (None :: day_record option)
   \<and> fst (get_analytics_data (fixed_clock 739923) Map.empty 1) = Inr [day_stat 739923 default_day]
   \<and> energy_stat (day_stat 739923 default_day) = 3"
  by (simp add: get_analytics_data_def get_day_data_def day_stat_def default_day_def get_or_def
      date_minus_days_def fixed_clock_def)

text \<open>
  C6, amended. A window whose dates all exist is returned; and in every window that
  is returned, for every date that had no record in the journal, the entry produced
  for it has work minutes, calories in, calories out, sleep hours, face total, face
  done and the streak flag all zero, and energy 3, the default of a new record.
\<close>

theorem untouched_day_stat:
  "(window_in_range today days \<longrightarrow> (\<exists>stats d'. get_analytics_data today d days = (Inr stats, d')))
   \<and> (\<forall>stats d'. get_analytics_data today d days = (Inr stats, d') \<longrightarrow>
        (\<forall>s\<in>set stats.
           d (get_date_key (date s)) = None \<longrightarrow>
             work_mins s = 0 \<and> cals_in s = 0 \<and> cals_out s = 0 \<and> sleep_stat s = 0
             \<and> energy_stat s = 3 \<and> face_total s = 0 \<and> face_done s = 0 \<and> nofap s = 0))"
proof -
  have A: "window_in_range today days \<longrightarrow>
             (\<exists>stats d'. get_analytics_data today d days = (Inr stats, d'))"
  proof
    assume "window_in_range today days"
    then have "\<forall>i\<in>set (rev [0..<nat days]).
          int i \<le> 999999999 \<and> 0 < today i - int i \<and> today i - int i \<le> 3652059"
      by (simp add: window_in_range_def)
    then show "\<exists>stats d'. get_analytics_data today d days = (Inr stats, d')"
      unfolding get_analytics_data_def by (rule analytics_loop_returns)
  qed
  have B: "\<forall>stats d'. get_analytics_data today d days = (Inr stats, d') \<longrightarrow>
        (\<forall>s\<in>set stats.
           d (get_date_key (date s)) = None \<longrightarrow>
             work_mins s = 0 \<and> cals_in s = 0 \<and> cals_out s = 0 \<and> sleep_stat s = 0
             \<and> energy_stat s = 3 \<and> face_total s = 0 \<and> face_done s = 0 \<and> nofap s = 0)"
  proof (intro allI impI ballI)
    fix stats d' s
    assume g: "get_analytics_data today d days = (Inr stats, d')"
      and s: "s \<in> set stats" and k: "d (get_date_key (date s)) = None"
    have "\<forall>s\<in>set stats. d (get_date_key (date s)) = None \<longrightarrow> s = day_stat (date s) default_day"
      using g unfolding get_analytics_data_def by (rule analytics_loop_untouched) simp_all
    with s k have "s = day_stat (date s) default_day" by blast
    then obtain cd where e: "s = day_stat cd default_day" ..
    show "work_mins s = 0 \<and> cals_in s = 0 \<and> cals_out s = 0 \<and> sleep_stat s = 0
         \<and> energy_stat s = 3 \<and> face_total s = 0 \<and> face_done s = 0 \<and> nofap s = 0"
      unfolding e by (simp add: day_stat_def default_day_def get_or_def)
  qed
  from A B show ?thesis ..
qed

theorem untouched_day_stat_witness:
  "window_in_range (fixed_clock 739923) 1
   \<and> get_analytics_data (fixed_clock 739923) Map.empty 1
       = (Inr [day_stat 739923 default_day], [get_date_key 739923 \<mapsto> default_day])
   \<and> Map.empty (get_date_key (date (day_stat 739923 default_day))) = (None :: day_record option)
   \<and> work_mins (day_stat 739923 default_day) = 0
   \<and> energy_stat (day_stat 739923 default_day) = 3
   \<and> nofap (day_stat 739923 default_day) = 0"
proof -
  have w: "window_in_range (fixed_clock 739923) 1"
    by (simp add: window_in_range_def fixed_clock_def)
  have g: "get_analytics_data (fixed_clock 739923) Map.empty 1
       = (Inr [day_stat 739923 default_day], [get_date_key 739923 \<mapsto> default_day])"
    by (simp add: get_analytics_data_def get_day_data_def date_minus_days_def fixed_clock_def)
  have m: "day_stat 739923 default_day \<in> set [day_stat 739923 default_day]" by simp
  have n: "Map.empty (get_date_key (date (day_stat 739923 default_day))) = (None :: day_record option)"
    by simp
  note t = untouched_day_stat [of "fixed_clock 739923" 1 Map.empty]
  from t have "\<forall>stats d'. get_analytics_data (fixed_clock 739923) Map.empty 1 = (Inr stats, d') \<longrightarrow>
        (\<forall>s\<in>set stats.
           Map.empty (get_date_key (date s)) = (None :: day_record option) \<longrightarrow>
             work_mins s = 0 \<and> cals_in s = 0 \<and> cals_out s = 0 \<and> sleep_stat s = 0
             \<and> energy_stat s = 3 \<and> face_total s = 0 \<and> face_done s = 0 \<and> nofap s = 0)"
    by blast
  from this [rule_format, OF g m n] w g n show ?thesis by blast
qed

section \<open>Merging and saving\<close>

lemma update_and_save_data:
  "data (update_and_save u w) =
     (data w)(get_date_key (current_date w) \<mapsto>
        dict_update (case data w (get_date_key (current_date w)) of None \<Rightarrow> default_day | Some r \<Rightarrow> r) u)"
  by (cases "data w (get_date_key (current_date w))")
     (simp_all add: update_and_save_def get_day_data_def Let_def)

lemma update_and_save_disk:
  "disk (update_and_save u w) = save_data (data (update_and_save u w))"
  by (simp add: update_and_save_def Let_def split_beta)

text \<open>
  C3. For every date being viewed and every partial record, \<open>update_and_save\<close> leaves
  at that date's key the existing record, or the default one when there was none, with
  each top-level field that the partial record supplies replaced whole and every other
  field kept. A supplied sleep object that lacks hours becomes the record's sleep
  object as it is, without hours, whatever the hours were before. The other keys of
  the journal are unchanged, and the data file then holds the entire journal.
\<close>

theorem update_and_save_shallow:
  fixes w :: world and u :: day_record
  defines "k \<equiv> get_date_key (current_date w)"
  defines "old \<equiv> (case data w k of None \<Rightarrow> default_day | Some r \<Rightarrow> r)"
  defines "w' \<equiv> update_and_save u w"
  shows "\<exists>r. data w' k = Some r
      \<and> workTasks r = (case workTasks u of None \<Rightarrow> workTasks old | Some v \<Rightarrow> Some v)
      \<and> fitness r = (case fitness u of None \<Rightarrow> fitness old | Some v \<Rightarrow> Some v)
      \<and> faceHealth r = (case faceHealth u of None \<Rightarrow> faceHealth old | Some v \<Rightarrow> Some v)
      \<and> diet r = (case diet u of None \<Rightarrow> diet old | Some v \<Rightarrow> Some v)
      \<and> energy r = (case energy u of None \<Rightarrow> energy old | Some v \<Rightarrow> Some v)
      \<and> sleep r = (case sleep u of None \<Rightarrow> sleep old | Some v \<Rightarrow> Some v)
      \<and> nofapStreak r = (case nofapStreak u of None \<Rightarrow> nofapStreak old | Some v \<Rightarrow> Some v)
      \<and> (\<forall>sl. sleep u = Some sl \<and> hours sl = None \<longrightarrow>
            (\<exists>sl'. sleep r = Some sl' \<and> sl' = sl \<and> hours sl' = None))
      \<and> (\<forall>k'. k' \<noteq> k \<longrightarrow> data w' k' = data w k')
      \<and> disk w' = save_data (data w')
      \<and> load_data (disk w') = data w'
      \<and> current_date w' = current_date w"
proof -
  have d: "data w' = (data w)(k \<mapsto> dict_update old u)"
    unfolding w'_def k_def old_def by (rule update_and_save_data)
  have s: "disk w' = save_data (data w')"
    unfolding w'_def by (rule update_and_save_disk)
  have l: "load_data (disk w') = data w'"
    unfolding s by (simp add: load_data_def save_data_def path_exists_def json_load_def)
  have c: "current_date w' = current_date w"
    unfolding w'_def by (simp add: update_and_save_def Let_def split_beta)
  have f: "workTasks (dict_update old u) = (case workTasks u of None \<Rightarrow> workTasks old | Some v \<Rightarrow> Some v)"
    "fitness (dict_update old u) = (case fitness u of None \<Rightarrow> fitness old | Some v \<Rightarrow> Some v)"
    "faceHealth (dict_update old u) = (case faceHealth u of None \<Rightarrow> faceHealth old | Some v \<Rightarrow> Some v)"
    "diet (dict_update old u) = (case diet u of None \<Rightarrow> diet old | Some v \<Rightarrow> Some v)"
    "energy (dict_update old u) = (case energy u of None \<Rightarrow> energy old | Some v \<Rightarrow> Some v)"
    "sleep (dict_update old u) = (case sleep u of None \<Rightarrow> sleep old | Some v \<Rightarrow> Some v)"
    "nofapStreak (dict_update old u) = (case nofapStreak u of None \<Rightarrow> nofapStreak old | Some v \<Rightarrow> Some v)"
    by (simp_all add: dict_update_def override_def)
  have h: "\<forall>sl. sleep u = Some sl \<and> hours sl = None \<longrightarrow>
            (\<exists>sl'. sleep (dict_update old u) = Some sl' \<and> sl' = sl \<and> hours sl' = None)"
    by (simp add: f)
  have o: "\<forall>k'. k' \<noteq> k \<longrightarrow> data w' k' = data w k'"
    by (simp add: d)
  have "data w' k = Some (dict_update old u)" by (simp add: d)
  with f h o s l c show ?thesis by blast
qed

theorem update_and_save_shallow_witness:
  "sleep sleep_without_hours = Some \<lparr> bedTime = Some ''22:00'', wakeTime = Some ''05:00'', hours = None \<rparr>
   \<and> hours \<lparr> bedTime = Some ''22:00'', wakeTime = Some ''05:00'', hours = None \<rparr> = None
   \<and> (\<exists>r. data (update_and_save sleep_without_hours slept_world) ''2026-11-03'' = Some r
          \<and> sleep r = Some \<lparr> bedTime = Some ''22:00'', wakeTime = Some ''05:00'', hours = None \<rparr>
          \<and> energy r = Some 3)
   \<and> load_data (disk (update_and_save sleep_without_hours slept_world))
        = data (update_and_save sleep_without_hours slept_world)"
proof -
  have k0: "get_date_key 739923 = ''2026-11-03''" by code_simp
  have k: "get_date_key (current_date slept_world) = ''2026-11-03''"
    by (simp add: slept_world_def k0)
  have a: "sleep sleep_without_hours = Some \<lparr> bedTime = Some ''22:00'', wakeTime = Some ''05:00'', hours = None \<rparr>"
    by (simp add: sleep_without_hours_def)
  have e: "energy sleep_without_hours = None"
    by (simp add: sleep_without_hours_def)
  have o: "data slept_world ''2026-11-03'' = Some (default_day\<lparr> sleep :=
                 Some \<lparr> bedTime = Some ''23:30'', wakeTime = Some ''06:00'', hours = Some (13 / 2) \<rparr> \<rparr>)"
    by (simp add: slept_world_def)
  from update_and_save_shallow [where w = slept_world and u = sleep_without_hours]
  obtain r where r: "data (update_and_save sleep_without_hours slept_world) ''2026-11-03'' = Some r"
    "sleep r = (case sleep sleep_without_hours of None \<Rightarrow>
                  sleep (case data slept_world ''2026-11-03'' of None \<Rightarrow> default_day | Some r \<Rightarrow> r) | Some v \<Rightarrow> Some v)"
    "energy r = (case energy sleep_without_hours of None \<Rightarrow>
                  energy (case data slept_world ''2026-11-03'' of None \<Rightarrow> default_day | Some r \<Rightarrow> r) | Some v \<Rightarrow> Some v)"
    "load_data (disk (update_and_save sleep_without_hours slept_world))
        = data (update_and_save sleep_without_hours slept_world)"
    unfolding k by blast
  have "sleep r = Some \<lparr> bedTime = Some ''22:00'', wakeTime = Some ''05:00'', hours = None \<rparr>"
    using r(2) a by simp
  moreover have "energy r = Some 3"
    using r(3) e o by (simp add: default_day_def)
  ultimately show ?thesis using r(1) r(4) a by simp
qed

section \<open>Lazy defaulting\<close>

lemma analytics_loop_snd:
  "analytics_loop today is stats dc = (Inr st, d') \<Longrightarrow>
   d' k = (if k \<in> (\<lambda>i. get_date_key (today i - int i)) ` set is \<and> dc k = None
           then Some default_day else dc k)"
proof (induction "is" arbitrary: stats dc)
  case Nil
  then show ?case by simp
next
  case (Cons i "is")
  let ?k = "get_date_key (today i - int i)"
  from Cons.prems obtain r d1 where g: "get_day_data dc ?k = (r, d1)"
    and n: "analytics_loop today is (stats @ [day_stat (today i - int i) r]) d1 = (Inr st, d')"
    by (rule analytics_loop_step)
  have d1: "d1 = (if dc ?k = None then dc(?k \<mapsto> default_day) else dc)"
    using g by (auto simp: get_day_data_def split: option.splits)
  have "d' k = (if k \<in> (\<lambda>i. get_date_key (today i - int i)) ` set is \<and> d1 k = None
                then Some default_day else d1 k)"
    using n by (rule Cons.IH)
  also have "\<dots> = (if k \<in> (\<lambda>i. get_date_key (today i - int i)) ` set (i # is) \<and> dc k = None
                     then Some default_day else dc k)"
    unfolding d1 by (cases "k = ?k") auto
  finally show ?case .
qed

text \<open>
  C7, as stated, at a session started with no data file: viewing today puts the default
  record into the journal in memory, and the data file still yields no record for today.
\<close>

theorem lazy_default_not_persisted_counterexample:
  "data (snd (view_day fresh_world)) ''2026-11-03'' = Some default_day
   \<and> load_data (disk (snd (view_day fresh_world))) ''2026-11-03'' = None"
proof -
  have k0: "get_date_key 739923 = ''2026-11-03''" by code_simp
  show ?thesis
    by (simp add: view_day_def fresh_world_def get_day_data_def k0 load_data_def path_exists_def)
qed

text \<open>
  C7, amended. Lazy defaulting creates the default record in the journal in memory: for
  every date key not yet in the journal, \<open>get_day_data\<close> returns the default record
  and inserts it, and that record is fully populated; a window whose dates all exist is
  returned by the aggregator, and after the aggregator has returned, every day of its
  window has a record, the default one where there was none. The reads themselves,
  viewing a day and aggregating, leave the data file as it was; a write through
  \<open>update_and_save\<close> leaves a record at the day's key and the whole journal, that
  record included, in the data file.
\<close>

theorem lazy_default_in_memory:
  "(d k = None \<longrightarrow> get_day_data d k = (default_day, d(k \<mapsto> default_day)))
   \<and> fully_populated default_day
   \<and> (window_in_range today days \<longrightarrow> (\<exists>stats d'. get_analytics_data today d days = (Inr stats, d')))
   \<and> (\<forall>stats d'. get_analytics_data today d days = (Inr stats, d') \<longrightarrow>
        (\<forall>i < nat days.
           d' (get_date_key (today i - int i))
             = Some (case d (get_date_key (today i - int i)) of None \<Rightarrow> default_day | Some r \<Rightarrow> r)))
   \<and> data (snd (view_day w)) = snd (get_day_data (data w) (get_date_key (current_date w)))
   \<and> disk (snd (view_day w)) = disk w
   \<and> data (snd (view_analytics today days w)) = snd (get_analytics_data today (data w) days)
   \<and> disk (snd (view_analytics today days w)) = disk w
   \<and> data (update_and_save u w) (get_date_key (current_date w)) \<noteq> None
   \<and> load_data (disk (update_and_save u w)) = data (update_and_save u w)"
proof (intro conjI allI impI)
  assume "d k = None"
  then show "get_day_data d k = (default_day, d(k \<mapsto> default_day))"
    by (simp add: get_day_data_def)
next
  show "fully_populated default_day"
    by (simp add: fully_populated_def default_day_def)
next
  assume "window_in_range today days"
  then have "\<forall>i\<in>set (rev [0..<nat days]).
          int i \<le> 999999999 \<and> 0 < today i - int i \<and> today i - int i \<le> 3652059"
    by (simp add: window_in_range_def)
  then show "\<exists>stats d'. get_analytics_data today d days = (Inr stats, d')"
    unfolding get_analytics_data_def by (rule analytics_loop_returns)
next
  fix stats d' i
  assume g: "get_analytics_data today d days = (Inr stats, d')" and i: "i < nat days"
  from i have "get_date_key (today i - int i)
      \<in> (\<lambda>i. get_date_key (today i - int i)) ` set (rev [0..<nat days])"
    by simp
  then show "d' (get_date_key (today i - int i))
           = Some (case d (get_date_key (today i - int i)) of None \<Rightarrow> default_day | Some r \<Rightarrow> r)"
    using analytics_loop_snd [OF g [unfolded get_analytics_data_def], of "get_date_key (today i - int i)"]
    by (cases "d (get_date_key (today i - int i))") simp_all
next
  show "data (snd (view_day w)) = snd (get_day_data (data w) (get_date_key (current_date w)))"
    by (simp add: view_day_def split_beta)
  show "disk (snd (view_day w)) = disk w"
    by (simp add: view_day_def split_beta)
  show "data (snd (view_analytics today days w)) = snd (get_analytics_data today (data w) days)"
    by (simp add: view_analytics_def split_beta)
  show "disk (snd (view_analytics today days w)) = disk w"
    by (simp add: view_analytics_def split_beta)
  show "data (update_and_save u w) (get_date_key (current_date w)) \<noteq> None"
    by (simp add: update_and_save_data)
  show "load_data (disk (update_and_save u w)) = data (update_and_save u w)"
    unfolding update_and_save_disk
    by (simp add: load_data_def save_data_def path_exists_def json_load_def)
qed

theorem lazy_default_in_memory_witness:
  "Map.empty ''2026-11-03'' = (None :: day_record option)
   \<and> get_day_data Map.empty ''2026-11-03'' = (default_day, [''2026-11-03'' \<mapsto> default_day])
   \<and> window_in_range (fixed_clock 739923) 2
   \<and> 1 < nat 2
   \<and> (\<exists>stats d'. get_analytics_data (fixed_clock 739923) Map.empty 2 = (Inr stats, d')
         \<and> d' (get_date_key (fixed_clock 739923 1 - int 1)) = Some default_day)
   \<and> disk (snd (view_day fresh_world)) = NoFile"
proof -
  have a: "Map.empty ''2026-11-03'' = (None :: day_record option)" by simp
  have b: "1 < nat 2" by simp
  have r: "window_in_range (fixed_clock 739923) 2"
    by (simp add: window_in_range_def fixed_clock_def)
  note t = lazy_default_in_memory [of Map.empty "''2026-11-03''" "fixed_clock 739923" 2 fresh_world]
  from t a have c: "get_day_data Map.empty ''2026-11-03'' = (default_day, [''2026-11-03'' \<mapsto> default_day])"
    by blast
  from t r obtain stats d' where g: "get_analytics_data (fixed_clock 739923) Map.empty 2 = (Inr stats, d')"
    by blast
  from t have "\<forall>stats d'. get_analytics_data (fixed_clock 739923) Map.empty 2 = (Inr stats, d') \<longrightarrow>
        (\<forall>i < nat 2.
           d' (get_date_key (fixed_clock 739923 i - int i))
             = Some (case Map.empty (get_date_key (fixed_clock 739923 i - int i))
                       of None \<Rightarrow> default_day | Some r \<Rightarrow> r))"
    by blast
  from this [rule_format, OF g b]
  have e: "d' (get_date_key (fixed_clock 739923 1 - int 1)) = Some default_day"
    by simp
  from t have f: "disk (snd (view_day fresh_world)) = NoFile"
    by (simp add: fresh_world_def)
  from g e have "\<exists>stats d'. get_analytics_data (fixed_clock 739923) Map.empty 2 = (Inr stats, d')
         \<and> d' (get_date_key (fixed_clock 739923 1 - int 1)) = Some default_day"
    by blast
  with a b c r f show ?thesis by blast
qed

section \<open>Diet entries\<close>

lemma dict_update_self: "dict_update r r = r"
  by (simp add: dict_update_def override_def split: option.splits)

text \<open>
  C8. The food form is the one place where the program changes a day's diet entries.
  For every session and every non-empty food name, when the day's record (the default
  one if the day is new) has a diet with entries, adding a food succeeds, appends the
  entry, and leaves \<open>totalCalories\<close> equal to the sum of the calories of all the
  entries; the record is the same in the journal and in the data file. Adding 200 and
  then 150 to an empty list gives 350.
\<close>

theorem add_food_total:
  fixes w :: world
  defines "k \<equiv> get_date_key (current_date w)"
  assumes "food_name \<noteq> []"
    and "diet (fst (get_day_data (data w) k)) = Some di"
    and "entries di = Some es"
  shows "\<exists>w' r di'. add_food food_name food_cals now w = Inr w'
      \<and> data w' k = Some r \<and> diet r = Some di'
      \<and> entries di' = Some (es @ [\<lparr> entry_id = now, food = food_name, calories = food_cals \<rparr>])
      \<and> totalCalories di' = Some (sum_list (map calories es) + food_cals)
      \<and> (\<exists>es'. entries di' = Some es' \<and> totalCalories di' = Some (sum_list (map calories es')))
      \<and> load_data (disk w') = data w'"
proof -
  obtain cur d1 where g: "get_day_data (data w) k = (cur, d1)"
    by (cases "get_day_data (data w) k")
  let ?es = "es @ [\<lparr> entry_id = now, food = food_name, calories = food_cals \<rparr>]"
  let ?di = "di\<lparr> entries := Some ?es, totalCalories := Some (sum_list (map calories ?es)) \<rparr>"
  let ?cur = "cur\<lparr> diet := Some ?di \<rparr>"
  let ?w1 = "w\<lparr> data := d1(k \<mapsto> ?cur) \<rparr>"
  let ?w' = "update_and_save ?cur ?w1"
  have dc: "diet cur = Some di" using assms(3) g by simp
  have a: "add_food food_name food_cals now w = Inr ?w'"
    using assms(2) assms(4) dc g unfolding k_def
    by (simp add: add_food_def Let_def)
  have kk: "get_date_key (current_date ?w1) = k" by (simp add: k_def)
  have "data ?w' = (data ?w1)(k \<mapsto> dict_update ?cur ?cur)"
    using update_and_save_data [of ?cur ?w1] unfolding kk by simp
  then have d: "data ?w' k = Some ?cur" by (simp add: dict_update_self)
  have l: "load_data (disk ?w') = data ?w'"
    unfolding update_and_save_disk
    by (simp add: load_data_def save_data_def path_exists_def json_load_def)
  have e: "diet ?cur = Some ?di" "entries ?di = Some ?es"
    "totalCalories ?di = Some (sum_list (map calories es) + food_cals)"
    "totalCalories ?di = Some (sum_list (map calories ?es))"
    by simp_all
  from a d l e show ?thesis by blast
qed

theorem add_food_total_witness:
  "''A'' \<noteq> []
   \<and> diet (fst (get_day_data (data fresh_world) (get_date_key (current_date fresh_world))))
        = Some \<lparr> entries = Some [], totalCalories = Some 0 \<rparr>
   \<and> add_food ''A'' 200 1 fresh_world = Inr fed_world
   \<and> ''B'' \<noteq> []
   \<and> diet (fst (get_day_data (data fed_world) (get_date_key (current_date fed_world))))
        = Some \<lparr> entries = Some [\<lparr> entry_id = 1, food = ''A'', calories = 200 \<rparr>],
                 totalCalories = Some 200 \<rparr>
   \<and> (\<exists>w' r di'. add_food ''B'' 150 2 fed_world = Inr w'
         \<and> data w' ''2026-11-03'' = Some r \<and> diet r = Some di'
         \<and> entries di' = Some [\<lparr> entry_id = 1, food = ''A'', calories = 200 \<rparr>,
                                \<lparr> entry_id = 2, food = ''B'', calories = 150 \<rparr>]
         \<and> totalCalories di' = Some 350)"
proof -
  have k0: "get_date_key 739923 = ''2026-11-03''" by code_simp
  have kf: "get_date_key (current_date fresh_world) = ''2026-11-03''"
    by (simp add: fresh_world_def k0)
  have kw: "get_date_key (current_date fed_world) = ''2026-11-03''"
    by (simp add: fed_world_def k0)
  have a: "''A'' \<noteq> []" and b: "''B'' \<noteq> []" by simp_all
  have c: "diet (fst (get_day_data (data fresh_world) (get_date_key (current_date fresh_world))))
        = Some \<lparr> entries = Some [], totalCalories = Some 0 \<rparr>"
    unfolding kf by (simp add: fresh_world_def get_day_data_def default_day_def)
  have d: "diet (fst (get_day_data (data fed_world) (get_date_key (current_date fed_world))))
        = Some \<lparr> entries = Some [\<lparr> entry_id = 1, food = ''A'', calories = 200 \<rparr>],
                 totalCalories = Some 200 \<rparr>"
    unfolding kw by (simp add: fed_world_def get_day_data_def)
  have e: "add_food ''A'' 200 1 fresh_world = Inr fed_world"
    by (simp add: add_food_def k0 fresh_world_def fed_world_def get_day_data_def default_day_def
        update_and_save_def save_data_def dict_update_def override_def Let_def)
  from add_food_total [OF b d, of "[\<lparr> entry_id = 1, food = ''A'', calories = 200 \<rparr>]" 150 2]
  have f: "\<exists>w' r di'. add_food ''B'' 150 2 fed_world = Inr w'
         \<and> data w' ''2026-11-03'' = Some r \<and> diet r = Some di'
         \<and> entries di' = Some [\<lparr> entry_id = 1, food = ''A'', calories = 200 \<rparr>,
                                \<lparr> entry_id = 2, food = ''B'', calories = 150 \<rparr>]
         \<and> totalCalories di' = Some 350"
    unfolding kw by simp blast
  from a b c d e f show ?thesis by blast
qed

section \<open>Time normalizer: properties\<close>

lemma round_half_even_err: "\<bar>of_int (round_half_even x) - x\<bar> \<le> 1 / 2"
proof -
  have "of_int \<lfloor>x\<rfloor> \<le> x" "x < of_int \<lfloor>x\<rfloor> + 1" by linarith+
  then show ?thesis by (auto simp: round_half_even_def Let_def)
qed

lemma round_half_even_nonneg: "0 \<le> x \<Longrightarrow> 0 \<le> round_half_even x"
  by (auto simp: round_half_even_def Let_def)

lemma ilog2_le:
  assumes "0 < x"
  shows "2 powi (ilog2 x) \<le> x"
proof -
  obtain n d where q: "quotient_of x = (n, d)" by (cases "quotient_of x")
  have d: "0 < d" using q by (rule quotient_of_denom_pos)
  have x: "x = of_int n / of_int d" using q by (rule quotient_of_div)
  have n: "0 < n" using assms d unfolding x by (simp add: zero_less_divide_iff)
  define bn where "bn = floorlog 2 (nat n)"
  define bd where "bd = floorlog 2 (nat d)"
  have bn: "2 ^ (bn - 1) \<le> nat n" and bd: "nat d < 2 ^ bd"
    using floorlog_bounds [of "nat n" 2] floorlog_bounds [of "nat d" 2] n d
    unfolding bn_def bd_def by simp_all
  have bn1: "1 \<le> bn" unfolding bn_def using n by (simp add: floorlog_def)
  have nn: "(2::rat) ^ (bn - 1) \<le> of_int n"
  proof -
    have "(2::rat) ^ (bn - 1) = of_nat (2 ^ (bn - 1))" by simp
    also have "\<dots> \<le> of_nat (nat n)" using bn by (simp only: of_nat_le_iff)
    also have "\<dots> = of_int n" using n by simp
    finally show ?thesis .
  qed
  have dd: "of_int d \<le> (2::rat) ^ bd"
  proof -
    have "of_int d = (of_nat (nat d) :: rat)" using d by simp
    also have "\<dots> \<le> of_nat (2 ^ bd)" using bd by (simp only: of_nat_le_iff)
    also have "\<dots> = 2 ^ bd" by simp
    finally show ?thesis .
  qed
  have low: "2 powi (int bn - int bd - 1) \<le> x"
  proof -
    have "int bn - int bd - 1 = int (bn - 1) - int bd" using bn1 by simp
    then have "(2::rat) powi (int bn - int bd - 1) = 2 powi (int (bn - 1) - int bd)"
      by (simp only:)
    also have "\<dots> = 2 powi int (bn - 1) / 2 powi int bd"
      by (rule power_int_diff) simp
    also have "\<dots> = 2 ^ (bn - 1) / 2 ^ bd"
      by (simp only: power_int_of_nat)
    also have "\<dots> \<le> of_int n / 2 ^ bd" using nn by (simp add: divide_right_mono)
    also have "\<dots> \<le> of_int n / of_int d"
      using dd d n by (intro divide_left_mono) simp_all
    finally show ?thesis unfolding x .
  qed
  show ?thesis
    using low q unfolding ilog2_def bn_def bd_def by (simp add: Let_def)
qed

lemma binary64_err: "\<bar>binary64 x - x\<bar> \<le> \<bar>x\<bar> / 2 ^ 53"
proof (cases "x = 0")
  case True
  then show ?thesis by (simp add: binary64_def)
next
  case False
  define e where "e = ilog2 \<bar>x\<bar> - 52"
  define p :: rat where "p = 2 powi e"
  have p: "0 < p" unfolding p_def by (simp add: zero_less_power_int)
  have "2 powi (ilog2 \<bar>x\<bar>) \<le> \<bar>x\<bar>" using False by (intro ilog2_le) simp
  moreover have "(2::rat) powi (ilog2 \<bar>x\<bar>) = p * 2 ^ 52"
    unfolding p_def e_def by (simp add: power_int_diff)
  ultimately have pb: "p * 2 ^ 52 \<le> \<bar>x\<bar>" by simp
  have b: "binary64 x = of_int (round_half_even (x / p)) * p"
    using False unfolding binary64_def p_def e_def by (simp add: Let_def)
  have "binary64 x - x = (of_int (round_half_even (x / p)) - x / p) * p"
    unfolding b using p by (simp add: algebra_simps)
  then have "\<bar>binary64 x - x\<bar> = \<bar>of_int (round_half_even (x / p)) - x / p\<bar> * p"
    using p by (simp add: abs_mult)
  also have "\<dots> \<le> (1 / 2) * p"
    using round_half_even_err [of "x / p"] p by (intro mult_right_mono) simp_all
  also have "\<dots> \<le> \<bar>x\<bar> / 2 ^ 53" using pb by simp
  finally show ?thesis .
qed

lemma binary64_nonneg: "0 \<le> x \<Longrightarrow> 0 \<le> binary64 x"
proof -
  assume x: "0 \<le> x"
  have "\<And>e. 0 \<le> of_int (round_half_even (x / 2 powi e)) * ((2::rat) powi e)"
  proof -
    fix e :: int
    have "0 \<le> x / 2 powi e" using x by (simp add: zero_le_power_int)
    then have "0 \<le> round_half_even (x / 2 powi e)" by (rule round_half_even_nonneg)
    then show "0 \<le> of_int (round_half_even (x / 2 powi e)) * ((2::rat) powi e)"
      by (simp add: zero_le_power_int)
  qed
  then show ?thesis by (simp add: binary64_def Let_def)
qed

lemma sleep_tenths:
  fixes k :: int
  assumes "0 \<le> k" and "k < 1440"
  defines "h \<equiv> binary64 (binary64 (of_int (60 * k)) / 3600)"
  shows "0 \<le> round_half_even (h * 10)"
    and "\<bar>of_int (round_half_even (h * 10)) / 10 - (of_int k :: rat) / 60\<bar> \<le> 1 / 20"
proof -
  define T :: rat where "T = of_int (60 * k)"
  define t where "t = binary64 T"
  define y where "y = t / 3600"
  define d where "d = round_half_even (h * 10)"
  define q :: rat where "q = of_int k / 60"
  have h: "h = binary64 y" unfolding h_def y_def t_def T_def ..
  have T0: "0 \<le> T" and T1: "T \<le> 86340"
    using assms(1,2) unfolding T_def by simp_all
  have Tq: "T = 3600 * q" unfolding T_def q_def by simp
  have "\<bar>t - T\<bar> \<le> \<bar>T\<bar> / 2 ^ 53" unfolding t_def by (rule binary64_err)
  also have "\<dots> \<le> 1 / 1000" using T0 T1 by simp
  finally have tT: "T - 1 / 1000 \<le> t \<and> t \<le> T + 1 / 1000"
    by (simp only: abs_diff_le_iff; linarith)
  have t0: "0 \<le> t" unfolding t_def using T0 by (rule binary64_nonneg)
  have y0: "0 \<le> y" unfolding y_def using t0 by simp
  have yt: "3600 * y = t" unfolding y_def by simp
  have y1: "y \<le> 25" using yt tT T1 by linarith
  have "\<bar>h - y\<bar> \<le> \<bar>y\<bar> / 2 ^ 53" unfolding h by (rule binary64_err)
  also have "\<dots> \<le> 1 / 2000" using y0 y1 by simp
  finally have hy: "y - 1 / 2000 \<le> h \<and> h \<le> y + 1 / 2000"
    by (simp only: abs_diff_le_iff; linarith)
  have hk: "q - 1 / 1000 \<le> h \<and> h \<le> q + 1 / 1000"
    using hy yt tT Tq by linarith
  have h0: "0 \<le> h" unfolding h using y0 by (rule binary64_nonneg)
  then have "0 \<le> h * 10" by simp
  then show "0 \<le> round_half_even (h * 10)" by (rule round_half_even_nonneg)
  have "\<bar>of_int d - h * 10\<bar> \<le> 1 / 2"
    unfolding d_def by (rule round_half_even_err)
  then have dh: "h * 10 - 1 / 2 \<le> of_int d \<and> of_int d \<le> h * 10 + 1 / 2"
    by (simp only: abs_diff_le_iff; linarith)
  have kq: "(of_int k :: rat) = 60 * q" unfolding q_def by simp
  have "(of_int (6 * d - k) :: rat) = 6 * of_int d - of_int k" by simp
  with dh hk kq have "(of_int (6 * d - k) :: rat) < of_int 4 \<and> of_int (- 4) < (of_int (6 * d - k) :: rat)"
    by (simp; linarith)
  then have "6 * d - k < 4 \<and> - 4 < 6 * d - k" by (simp only: of_int_less_iff)
  then have "6 * d - k \<le> 3 \<and> - 3 \<le> 6 * d - k" by simp
  then have "(of_int (6 * d - k) :: rat) \<le> of_int 3 \<and> of_int (- 3) \<le> (of_int (6 * d - k) :: rat)"
    by (simp only: of_int_le_iff)
  then have "6 * of_int d - 60 * q \<le> 3 \<and> - 3 \<le> 6 * of_int d - 60 * q"
    using kq by simp
  then have "\<bar>of_int d / 10 - q\<bar> \<le> 1 / 20"
    by (simp only: abs_le_iff; linarith)
  then show "\<bar>of_int (round_half_even (h * 10)) / 10 - (of_int k :: rat) / 60\<bar> \<le> 1 / 20"
    unfolding d_def q_def .
qed

lemma digit_props:
  "is_digit (digit d)"
  "digit_val (digit d) = nat (d mod 10)"
  "(digit d = CHR ''2'') = (d mod 10 = 2)"
  "in_class (digit d) ''0123'' = (d mod 10 < 4)"
  "in_class (digit d) ''01'' = (d mod 10 < 2)"
  "in_class (digit d) ''012345'' = (d mod 10 < 6)"
proof -
  have "0 \<le> d mod 10 \<and> d mod 10 < 10" by simp
  then have c: "d mod 10 = 0 \<or> d mod 10 = 1 \<or> d mod 10 = 2 \<or> d mod 10 = 3 \<or> d mod 10 = 4
      \<or> d mod 10 = 5 \<or> d mod 10 = 6 \<or> d mod 10 = 7 \<or> d mod 10 = 8 \<or> d mod 10 = 9"
    by arith
  from c show "is_digit (digit d)"
    by (elim disjE) (simp_all add: digit_def is_digit_def in_class_def)
  from c show "digit_val (digit d) = nat (d mod 10)"
    by (elim disjE) (simp_all add: digit_def digit_val_def)
  from c show "(digit d = CHR ''2'') = (d mod 10 = 2)"
    by (elim disjE) (simp_all add: digit_def)
  from c show "in_class (digit d) ''0123'' = (d mod 10 < 4)"
    by (elim disjE) (simp_all add: digit_def in_class_def)
  from c show "in_class (digit d) ''01'' = (d mod 10 < 2)"
    by (elim disjE) (simp_all add: digit_def in_class_def)
  from c show "in_class (digit d) ''012345'' = (d mod 10 < 6)"
    by (elim disjE) (simp_all add: digit_def in_class_def)
qed

lemma match_H_pad2:
  assumes "h < 24"
  shows "\<exists>more. match_H (pad2 (int h) @ r) = (h, r) # more"
proof -
  have t: "(int h div 10) mod 10 = int h div 10" using assms by simp
  show ?thesis
  proof (cases "int h div 10 = 2")
    case True
    then have "int h mod 10 < 4" using assms by arith
    moreover have "20 + nat (int h mod 10) = h"
    proof -
      have "nat (int h div 10) = 2" using True by simp
      then have "h div 10 = 2" by (simp add: nat_div_distrib)
      then have "20 + h mod 10 = h" using div_mult_mod_eq [of h 10] by simp
      then show ?thesis by (simp add: nat_mod_distrib)
    qed
    ultimately show ?thesis using True t
      by (simp add: match_H_def pad2_def digit_props)
  next
    case False
    then have l: "int h div 10 < 2" using assms by arith
    have "10 * nat (int h div 10) + nat (int h mod 10) = h"
      using div_mult_mod_eq [of h 10]
      by (simp add: nat_div_distrib nat_mod_distrib)
    then show ?thesis using False l t
      by (simp add: match_H_def pad2_def digit_props)
  qed
qed

lemma match_M_pad2:
  assumes "m < 60"
  shows "\<exists>more. match_M (pad2 (int m) @ r) = (m, r) # more"
proof -
  have t: "(int m div 10) mod 10 = int m div 10" using assms by simp
  have l: "int m div 10 < 6" using assms by arith
  have "10 * nat (int m div 10) + nat (int m mod 10) = m"
    using div_mult_mod_eq [of m 10]
    by (simp add: nat_div_distrib nat_mod_distrib)
  then show ?thesis using l t
    by (simp add: match_M_def pad2_def digit_props)
qed

lemma strptime_hhmm:
  assumes "h < 24" and "m < 60"
  shows "strptime_HM (hhmm h m) = Inr (60 * int h + int m)"
proof -
  obtain more where a: "match_H (pad2 (int h) @ CHR '':'' # pad2 (int m)) = (h, CHR '':'' # pad2 (int m)) # more"
    using match_H_pad2 [OF assms(1)] by blast
  obtain more' where "match_M (pad2 (int m) @ []) = (m, []) # more'"
    using match_M_pad2 [OF assms(2)] by blast
  then have b: "match_M (pad2 (int m)) = (m, []) # more'" by simp
  have "regex_HM (hhmm h m) = Some (h, m, [])"
    by (simp add: regex_HM_def hhmm_def a b match_colon_def)
  then show ?thesis by (simp add: strptime_HM_def)
qed

lemma hhmm_nonempty: "hhmm h m \<noteq> []"
  by (simp add: hhmm_def pad2_def)

text \<open>
  C5. For every pair of valid HH:MM strings, with \<open>bed\<close> and \<open>wake\<close> the minutes since
  midnight they denote, the hours returned are those of \<open>wake - bed\<close> when
  \<open>wake \<ge> bed\<close> and of \<open>wake + 24h - bed\<close> otherwise, rounded to one decimal place:
  the result is the float of a number of tenths \<open>d / 10\<close> that lies within half a
  tenth of the exact number of hours, and it is never negative. Bed 23:30 and wake
  06:00 give 6.5.
\<close>

theorem sleep_hours_wraparound:
  fixes bh bm wh wm :: nat
  assumes "bh < 24" and "bm < 60" and "wh < 24" and "wm < 60"
  defines "bed \<equiv> 60 * int bh + int bm"
    and "wake \<equiv> 60 * int wh + int wm"
  defines "mins \<equiv> (if bed \<le> wake then wake - bed else wake + 1440 - bed)"
  shows "0 \<le> calculate_sleep_hours (hhmm bh bm) (hhmm wh wm)
       \<and> (\<exists>d. 0 \<le> d
             \<and> calculate_sleep_hours (hhmm bh bm) (hhmm wh wm) = binary64 (of_int d / 10)
             \<and> \<bar>of_int d / 10 - (of_int mins :: rat) / 60\<bar> \<le> 1 / 20)"
proof -
  define h where "h = binary64 (binary64 (of_int (60 * mins)) / 3600)"
  define d where "d = round_half_even (h * 10)"
  have m0: "0 \<le> mins" and m1: "mins < 1440"
    using assms(1-4) unfolding mins_def bed_def wake_def by auto
  have w: "(if wake < bed then wake + 1440 else wake) - bed = mins"
    unfolding mins_def by simp
  have s1: "strptime_HM (hhmm bh bm) = Inr bed"
    unfolding bed_def using assms(1,2) by (rule strptime_hhmm)
  have s2: "strptime_HM (hhmm wh wm) = Inr wake"
    unfolding wake_def using assms(3,4) by (rule strptime_hhmm)
  have "sleep_try (hhmm bh bm) (hhmm wh wm)
          = Inr (py_round1 (binary64 (binary64
              (of_int (60 * ((if wake < bed then wake + 1440 else wake) - bed))) / 3600)))"
    by (simp only: sleep_try_def s1 s2 sum.case Let_def)
  then have "sleep_try (hhmm bh bm) (hhmm wh wm) = Inr (py_round1 h)"
    unfolding w h_def .
  then have c: "calculate_sleep_hours (hhmm bh bm) (hhmm wh wm) = binary64 (of_int d / 10)"
    unfolding calculate_sleep_hours_def d_def py_round1_def by (simp add: hhmm_nonempty)
  have d0: "0 \<le> d"
    and dm: "\<bar>of_int d / 10 - (of_int mins :: rat) / 60\<bar> \<le> 1 / 20"
    unfolding d_def h_def using sleep_tenths [OF m0 m1] by simp_all
  have "0 \<le> binary64 (of_int d / 10)" using d0 by (intro binary64_nonneg) simp
  with c d0 dm show ?thesis by auto
qed

theorem sleep_hours_wraparound_witness:
  "(23::nat) < 24 \<and> (30::nat) < 60 \<and> (6::nat) < 24 \<and> (0::nat) < 60
   \<and> hhmm 23 30 = ''23:30'' \<and> hhmm 6 0 = ''06:00''
   \<and> calculate_sleep_hours ''23:30'' ''06:00'' = 13 / 2"
proof -
  have a: "hhmm 23 30 = ''23:30''" and b: "hhmm 6 0 = ''06:00''" by code_simp+
  have n: "(23::nat) < 24" "(30::nat) < 60" "(6::nat) < 24" "(0::nat) < 60" by simp_all
  from sleep_hours_wraparound [OF n]
  obtain d :: int where d: "calculate_sleep_hours (hhmm 23 30) (hhmm 6 0) = binary64 (of_int d / 10)"
    "\<bar>of_int d / 10 - (390 :: rat) / 60\<bar> \<le> 1 / 20"
    by auto
  from d(2) have "(of_int d :: rat) \<le> of_int 65 \<and> of_int 65 \<le> (of_int d :: rat)"
    by (simp only: abs_le_iff; simp; linarith)
  then have "d = 65" by (simp only: of_int_le_iff) simp
  moreover have "binary64 (of_int 65 / 10) = 13 / 2" by code_simp
  ultimately have "calculate_sleep_hours ''23:30'' ''06:00'' = 13 / 2"
    using d(1) a b by simp
  with a b n show ?thesis by simp
qed

text \<open>
  C10. \<open>calculate_sleep_hours\<close> is a total function to floats: every exception of the
  parsing is caught. When either text is empty, or \<open>strptime\<close> raises on either of
  them, the result is exactly 0.
\<close>

theorem sleep_hours_unparseable_zero:
  "bed_time = [] \<or> wake_time = []
     \<or> (\<exists>e. strptime_HM bed_time = Inl e) \<or> (\<exists>e. strptime_HM wake_time = Inl e)
   \<Longrightarrow> calculate_sleep_hours bed_time wake_time = 0"
proof (cases "bed_time = [] \<or> wake_time = []")
  case True
  then show ?thesis by (simp add: calculate_sleep_hours_def)
next
  case False
  assume "bed_time = [] \<or> wake_time = []
     \<or> (\<exists>e. strptime_HM bed_time = Inl e) \<or> (\<exists>e. strptime_HM wake_time = Inl e)"
  with False have "(\<exists>e. strptime_HM bed_time = Inl e) \<or> (\<exists>e. strptime_HM wake_time = Inl e)"
    by blast
  then have "\<exists>e. sleep_try bed_time wake_time = Inl e"
    by (auto simp: sleep_try_def split: sum.splits)
  then show ?thesis by (auto simp: calculate_sleep_hours_def)
qed

theorem sleep_hours_unparseable_zero_witness:
  "strptime_HM ''24:00'' = Inl ValueError
   \<and> calculate_sleep_hours ''24:00'' ''06:00'' = 0
   \<and> calculate_sleep_hours [] ''06:00'' = 0"
proof -
  have a: "strptime_HM ''24:00'' = Inl ValueError" by code_simp
  then have h: "''24:00'' = [] \<or> ''06:00'' = []
     \<or> (\<exists>e. strptime_HM ''24:00'' = Inl e) \<or> (\<exists>e. strptime_HM ''06:00'' = Inl e)"
    by blast
  have g: "[] = ([] :: string) \<or> ''06:00'' = []
     \<or> (\<exists>e. strptime_HM [] = Inl e) \<or> (\<exists>e. strptime_HM ''06:00'' = Inl e)"
    by simp
  from a sleep_hours_unparseable_zero [OF h] sleep_hours_unparseable_zero [OF g]
  show ?thesis by blast
qed

end
